theory Spec2Isabelle
  imports Main "HOL-Library.Word"
begin

section \<open>Errors, streams and the locale reference\<close>

text \<open>
  The error codes used by the scanners of \<^verbatim>\<open>types.h\<close> (\<open>end_of_stream\<close>) and by the
  entry points of \<^verbatim>\<open>scan.h\<close> (\<open>end_of_range\<close>). Success is not a member: a call that
  succeeds returns a value (\<open>Inr\<close>), or \<open>None\<close> where the source returns a bare error object.
\<close>

datatype error =
    end_of_stream
  | end_of_range
  | invalid_format_string
  | invalid_scanned_value
  | value_out_of_range
  | unrecoverable_source_error
  | invalid_encoding

text \<open>
  The stream behind \<^verbatim>\<open>ctx.stream()\<close> is an in-memory character source: the units not yet
  read, the next one first. \<open>read_char\<close> returns the next unit or \<open>end_of_stream\<close>;
  \<open>putback\<close> makes a unit the next one to be read and cannot fail on such a source.
\<close>

type_synonym stream = "char list"

fun read_char :: "stream \<Rightarrow> (error + char) \<times> stream" where
  "read_char [] = (Inl end_of_stream, [])"
| "read_char (c # cs) = (Inr c, cs)"

definition putback :: "char \<Rightarrow> stream \<Rightarrow> stream" where
  "putback c s = c # s"

text \<open>
  The locale reference behind \<^verbatim>\<open>ctx.locale()\<close>, as the callbacks the scanners call on it.
  \<open>loc_is_digit\<close> is the classification of the bound (dynamic) locale, which
  \<^verbatim>\<open>detail::is_digit\<close> asks when its \<open>localized\<close> argument is set.
\<close>

record locale_ref =
  is_space :: "char \<Rightarrow> bool"
  thousands_separator :: char
  loc_is_digit :: "char \<Rightarrow> bool"
  truename :: string
  falsename :: string

text \<open>What a scanner call does: it returns a result and leaves the stream in some state,
  or it runs into undefined behaviour (an iterator that leaves its buffer).\<close>

datatype 'a outcome = Undefined | Returned "error + 'a" stream

definition NUL :: char where
  "NUL = CHR 0x00"

text \<open>
  The loop that every scanner of \<^verbatim>\<open>types.h\<close> runs when a read fails at slot \<open>k\<close>
  of its buffer:
  \<^verbatim>\<open>for (auto i = buf.begin(); i != it - 1; ++i) { putback(*i); }\<close>
  With \<open>it = buf.begin() + k\<close> and \<open>k \<ge> 1\<close> it puts back the first \<open>k - 1\<close> slots, the
  first slot first. With \<open>k = 0\<close> the bound \<open>it - 1\<close> lies before the buffer and \<open>i\<close> never
  meets it inside the buffer.
\<close>

fun putback_all :: "char list \<Rightarrow> stream \<Rightarrow> stream" where
  "putback_all [] s = s"
| "putback_all (c # cs) s = putback_all cs (putback c s)"

definition putback_loop :: "char list \<Rightarrow> nat \<Rightarrow> stream \<Rightarrow> stream option" where
  "putback_loop buf k s =
     (if k = 0 then None else Some (putback_all (take (k - 1) buf) s))"

section \<open>The span scanner\<close>

text \<open>
  \<^verbatim>\<open>basic_value_scanner<CharT, span<CharT>>::scan\<close>. The span is the list of its
  elements; the result is the span's new contents. \<open>span_fill n buf s\<close> is the read loop
  with \<open>n\<close> slots left and \<open>buf\<close> the slots passed so far; a \<open>break\<close> leaves the
  remaining slots at their initial value.
\<close>

fun span_fill :: "locale_ref \<Rightarrow> nat \<Rightarrow> char list \<Rightarrow> stream \<Rightarrow> char list outcome" where
  "span_fill loc 0 buf s = Returned (Inr buf) s"
| "span_fill loc (Suc n) buf s =
     (case read_char s of
        (Inl e, s') \<Rightarrow>
          (case putback_loop (buf @ replicate (Suc n) NUL) (length buf) s' of
             None \<Rightarrow> Undefined
           | Some s'' \<Rightarrow> Returned (Inl e) s'')
      | (Inr ch, s') \<Rightarrow>
          if is_space loc ch then Returned (Inr (buf @ replicate (Suc n) NUL)) s'
          else span_fill loc n (buf @ [ch]) s')"

definition scan_span :: "locale_ref \<Rightarrow> char list \<Rightarrow> stream \<Rightarrow> char list outcome" where
  "scan_span loc val s =
     (if length val = 0 then Returned (Inr val) s
      else span_fill loc (length val) [] s)"

section \<open>The bool scanner\<close>

text \<open>
  \<^verbatim>\<open>std::equal(buf.begin(), it + 1, name.begin())\<close>: the first range is compared, unit by
  unit, with as many units of the second, and the comparison stops at the first difference.
  It reads past the end of the name when the name is a proper prefix of the first range.
\<close>

fun std_equal :: "char list \<Rightarrow> char list \<Rightarrow> bool option" where
  "std_equal [] ys = Some True"
| "std_equal (x # xs) [] = None"
| "std_equal (x # xs) (y # ys) = (if x = y then std_equal xs ys else Some False)"

text \<open>The loop of \<^verbatim>\<open>basic_value_scanner<CharT, bool>::scan\<close> over the buffer of
  \<open>max_len\<close> slots: \<open>n\<close> slots are left and \<open>buf\<close> holds the units read so far.\<close>

fun bool_fill :: "locale_ref \<Rightarrow> nat \<Rightarrow> char list \<Rightarrow> stream \<Rightarrow> bool outcome" where
  "bool_fill loc 0 buf s = Returned (Inl invalid_scanned_value) s"
| "bool_fill loc (Suc n) buf s =
     (case read_char s of
        (Inl e, s') \<Rightarrow>
          if e = end_of_stream then Returned (Inl invalid_scanned_value) s'
          else (case putback_loop (buf @ replicate (Suc n) NUL) (length buf) s' of
                  None \<Rightarrow> Undefined
                | Some s'' \<Rightarrow> Returned (Inl e) s'')
      | (Inr ch, s') \<Rightarrow>
          (case std_equal (buf @ [ch]) (falsename loc) of
             None \<Rightarrow> Undefined
           | Some True \<Rightarrow> Returned (Inr False) s'
           | Some False \<Rightarrow>
               (case std_equal (buf @ [ch]) (truename loc) of
                  None \<Rightarrow> Undefined
                | Some True \<Rightarrow> Returned (Inr True) s'
                | Some False \<Rightarrow> bool_fill loc n (buf @ [ch]) s')))"

definition scan_bool :: "locale_ref \<Rightarrow> stream \<Rightarrow> bool outcome" where
  "scan_bool loc s =
     (case read_char s of
        (Inl e, s') \<Rightarrow> Returned (Inl e) s'
      | (Inr tmp, s') \<Rightarrow>
          if tmp = CHR ''0'' then Returned (Inr False) s'
          else if tmp = CHR ''1'' then Returned (Inr True) s'
          else
            let s'' = putback tmp s';
                max_len = max (length (truename loc)) (length (falsename loc))
            in if max_len < 1 then Returned (Inl invalid_scanned_value) s''
               else bool_fill loc max_len [] s'')"

section \<open>The integer scanner\<close>

text \<open>The members of the integer scanner: \<^verbatim>\<open>int base{10}; bool localized{false};\<close>\<close>

record int_scanner =
  base :: int
  localized :: bool

definition int_scanner_init :: int_scanner where
  "int_scanner_init = \<lparr>base = 10, localized = False\<rparr>"

text \<open>
  \<^verbatim>\<open>parse\<close>: the parse context is the rest of the format string, its first unit the
  current one. The call advances past the opening brace and looks at the next unit; on a
  format string that ends there it reads past the end (\<open>None\<close>). The result is the updated
  scanner, or the error, and the position the context is left at.
\<close>

fun int_parse :: "int_scanner \<Rightarrow> string \<Rightarrow> ((error + int_scanner) \<times> string) option" where
  "int_parse sc [] = None"
| "int_parse sc [c] = None"
| "int_parse sc (c # ch # rest) = Some
     (if ch = CHR ''}'' then (Inr (sc\<lparr>base := 10, localized := True\<rparr>), ch # rest)
      else if ch = CHR ''d'' then (Inr (sc\<lparr>base := 10\<rparr>), rest)
      else if ch = CHR ''x'' then (Inr (sc\<lparr>base := 16\<rparr>), rest)
      else if ch = CHR ''b'' then (Inr (sc\<lparr>base := 2\<rparr>), rest)
      else if ch = CHR ''o'' then (Inr (sc\<lparr>base := 8\<rparr>), rest)
      else (Inl invalid_format_string, ch # rest))"

text \<open>
  Modelled from the spec: \<^verbatim>\<open>detail::is_digit\<close> and \<^verbatim>\<open>detail::char_to_int\<close> are not
  among the sources. The locale contract gives \<open>is_digit(ch, base, localized)\<close> two
  profiles: the static ASCII one, and the dynamic one that is asked only when \<open>localized\<close>
  is set. \<open>char_to_int\<close> is the value of the digit: the distance from \<open>0\<close>, or ten plus
  the distance from \<open>a\<close> or \<open>A\<close> for a letter.
\<close>

definition digit_value :: "char \<Rightarrow> int" where
  "digit_value ch =
     (let c = (of_char ch :: int) in
      if 97 \<le> c \<and> c \<le> 122 then 10 + (c - 97)
      else if 65 \<le> c \<and> c \<le> 90 then 10 + (c - 65)
      else c - 48)"

definition ascii_is_digit :: "char \<Rightarrow> int \<Rightarrow> bool" where
  "ascii_is_digit ch b =
     (let c = (of_char ch :: int) in
      ((48 \<le> c \<and> c \<le> 57) \<or> (97 \<le> c \<and> c \<le> 122) \<or> (65 \<le> c \<and> c \<le> 90))
      \<and> digit_value ch < b)"

definition is_digit :: "locale_ref \<Rightarrow> char \<Rightarrow> int \<Rightarrow> bool \<Rightarrow> bool" where
  "is_digit loc ch b l = (if l then loc_is_digit loc ch else ascii_is_digit ch b)"

definition char_to_int :: "char \<Rightarrow> int \<Rightarrow> bool \<Rightarrow> 'a::len word" where
  "char_to_int ch b l = word_of_int (digit_value ch)"

text \<open>
  The read loop of \<^verbatim>\<open>scan\<close> over the buffer of \<open>max_digits<T>() + 1\<close> slots, all
  initially zero: \<open>n\<close> slots are left and \<open>buf\<close> holds the slots passed so far. A
  thousands separator is skipped with \<^verbatim>\<open>continue\<close>, which also passes its slot.
\<close>

fun int_fill :: "locale_ref \<Rightarrow> nat \<Rightarrow> char list \<Rightarrow> stream \<Rightarrow> char list outcome" where
  "int_fill loc 0 buf s = Returned (Inr buf) s"
| "int_fill loc (Suc n) buf s =
     (case read_char s of
        (Inl e, s') \<Rightarrow>
          if e = end_of_stream then Returned (Inr (buf @ replicate (Suc n) NUL)) s'
          else (case putback_loop (buf @ replicate (Suc n) NUL) (length buf) s' of
                  None \<Rightarrow> Undefined
                | Some s'' \<Rightarrow> Returned (Inl e) s'')
      | (Inr ch, s') \<Rightarrow>
          if is_space loc ch then Returned (Inr (buf @ replicate (Suc n) NUL)) s'
          else if thousands_separator loc = ch then int_fill loc n (buf @ [NUL]) s'
          else int_fill loc n (buf @ [ch]) s')"

text \<open>The digit loop: \<^verbatim>\<open>tmp = tmp * static_cast<T>(base) - char_to_int<T>(*it, ...)\<close>
  while the slot holds a digit. \<open>T\<close> is a machine integer of the width of \<open>'a\<close>, and its
  arithmetic wraps around.\<close>

fun accumulate :: "locale_ref \<Rightarrow> int_scanner \<Rightarrow> 'a::len word \<Rightarrow> char list \<Rightarrow> 'a word" where
  "accumulate loc sc tmp [] = tmp"
| "accumulate loc sc tmp (c # cs) =
     (if is_digit loc c (base sc) (localized sc)
      then accumulate loc sc
             (tmp * word_of_int (base sc) - char_to_int c (base sc) (localized sc)) cs
      else tmp)"

text \<open>The lambda \<^verbatim>\<open>sign_tmp\<close> on the first slot: the sign flag and the running total.\<close>

definition sign_tmp ::
  "bool \<Rightarrow> locale_ref \<Rightarrow> int_scanner \<Rightarrow> char \<Rightarrow> error + (bool \<times> 'a::len word)" where
  "sign_tmp is_unsigned loc sc c =
     (if is_unsigned \<and> c = CHR ''-'' then Inl invalid_scanned_value
      else if \<not> is_unsigned \<and> c = CHR ''-'' then Inr (False, 0)
      else if c = CHR ''+'' then Inr (True, 0)
      else if is_digit loc c (base sc) (localized sc)
        then Inr (True, 0 * word_of_int (base sc) - char_to_int c (base sc) (localized sc))
      else Inl invalid_scanned_value)"

text \<open>
  \<^verbatim>\<open>scan\<close> for an integral \<open>T\<close>: \<open>is_unsigned\<close> is \<^verbatim>\<open>std::is_unsigned<T>::value\<close> and
  \<open>max_digits\<close> is the value of \<^verbatim>\<open>detail::max_digits<T>()\<close>, which is not among the
  sources.
\<close>

definition scan_int ::
  "bool \<Rightarrow> nat \<Rightarrow> int_scanner \<Rightarrow> locale_ref \<Rightarrow> stream \<Rightarrow> ('a::len word) outcome" where
  "scan_int is_unsigned max_digits sc loc s =
     (case int_fill loc (max_digits + 1) [] s of
        Undefined \<Rightarrow> Undefined
      | Returned (Inl e) s' \<Rightarrow> Returned (Inl e) s'
      | Returned (Inr buf) s' \<Rightarrow>
          (case sign_tmp is_unsigned loc sc (hd buf) of
             Inl e \<Rightarrow> Returned (Inl e) s'
           | Inr (sign, tmp0) \<Rightarrow>
               let tmp = accumulate loc sc tmp0 (tl buf)
               in Returned (Inr (if sign then - tmp else tmp)) s'))"

text \<open>
  Modelled from the spec: the locale reference is not among the sources. This is its
  static profile: ASCII white space and digits, the names \<open>true\<close> and \<open>false\<close>.
\<close>

definition classic_locale :: locale_ref where
  "classic_locale =
     \<lparr>is_space = (\<lambda>c. c \<in> set [CHR '' '', CHR 0x09, CHR 0x0A, CHR 0x0B, CHR 0x0C, CHR 0x0D]),
      thousands_separator = CHR '','',
      loc_is_digit = (\<lambda>c. c \<in> set ''0123456789''),
      truename = ''true'',
      falsename = ''false''\<rparr>"

text \<open>The decimal textual form of an integer: a minus sign for a negative one, then the
  digits, the most significant first, with no leading zero.\<close>

definition digit_char :: "nat \<Rightarrow> char" where
  "digit_char d = ''0123456789'' ! d"

fun dec_digits :: "nat \<Rightarrow> string" where
  "dec_digits n = (if n < 10 then [digit_char n] else dec_digits (n div 10) @ [digit_char (n mod 10)])"

declare dec_digits.simps [simp del]

definition dec_text :: "int \<Rightarrow> string" where
  "dec_text n = (if n < 0 then CHR ''-'' # dec_digits (nat (- n)) else dec_digits (nat n))"

text \<open>
  The locales under which decimal text reads as what it says: the minus sign and the ten
  digits are neither white space nor the thousands separator, the ten digits are digits
  of the locale and the zero unit is not.
\<close>

definition plain_decimal_locale :: "locale_ref \<Rightarrow> bool" where
  "plain_decimal_locale loc \<longleftrightarrow>
     (\<forall>c \<in> set ''-0123456789''. \<not> is_space loc c \<and> thousands_separator loc \<noteq> c) \<and>
     (\<forall>c \<in> set ''0123456789''. loc_is_digit loc c) \<and> \<not> loc_is_digit loc NUL"

section \<open>The floating-point scanner\<close>

text \<open>
  The read loop of \<^verbatim>\<open>basic_value_scanner<CharT, T>::scan\<close> for a floating-point \<open>T\<close>,
  over the 64 zero-filled slots of \<open>buf\<close>: \<open>n\<close> slots are left, \<open>point\<close> tells whether a
  decimal point has been stored and \<open>buf\<close> holds the slots passed so far. A failed read of
  any kind, the end of the stream too, runs the put-back loop and returns the error.
\<close>

fun float_fill :: "locale_ref \<Rightarrow> nat \<Rightarrow> bool \<Rightarrow> char list \<Rightarrow> stream \<Rightarrow> char list outcome" where
  "float_fill loc 0 point buf s = Returned (Inr buf) s"
| "float_fill loc (Suc n) point buf s =
     (case read_char s of
        (Inl e, s') \<Rightarrow>
          (case putback_loop (buf @ replicate (Suc n) NUL) (length buf) s' of
             None \<Rightarrow> Undefined
           | Some s'' \<Rightarrow> Returned (Inl e) s'')
      | (Inr tmp, s') \<Rightarrow>
          if tmp = CHR ''.'' then
            (if point then Returned (Inr (buf @ replicate (Suc n) NUL)) (putback tmp s')
             else float_fill loc n True (buf @ [tmp]) s')
          else if \<not> is_digit loc tmp 10 False
            then Returned (Inr (buf @ replicate (Suc n) NUL)) (putback tmp s')
          else float_fill loc n point (buf @ [tmp]) s')"

text \<open>
  \<^verbatim>\<open>scan\<close>: \<open>str_to_floating\<close> stands for \<^verbatim>\<open>detail::str_to_floating<T, CharT>\<close>, which
  is not among the sources: from the locale and the buffer it gives the converted value
  and the offset in the buffer at which the conversion ended. The scan fails unless that
  offset is the position of the first zero unit of the buffer.
\<close>

definition scan_float ::
  "(locale_ref \<Rightarrow> char list \<Rightarrow> 'f \<times> nat) \<Rightarrow> locale_ref \<Rightarrow> stream \<Rightarrow> 'f outcome" where
  "scan_float str_to_floating loc s =
     (case float_fill loc 64 False [] s of
        Undefined \<Rightarrow> Undefined
      | Returned (Inl e) s' \<Rightarrow> Returned (Inl e) s'
      | Returned (Inr buf) s' \<Rightarrow>
          if hd buf = NUL then Returned (Inl invalid_scanned_value) s'
          else (case str_to_floating loc buf of
                  (tmp, end_pos) \<Rightarrow>
                    if length (takeWhile (\<lambda>c. c \<noteq> NUL) buf) \<noteq> end_pos
                    then Returned (Inl invalid_scanned_value) s'
                    else Returned (Inr tmp) s'))"

text \<open>
  The texts the read loop stores: \<open>float_run point ds\<close> holds when \<open>ds\<close> consists of ASCII
  decimal digits and at most one decimal point, none if \<open>point\<close> is already set.
  \<open>ends_float_run point ds c\<close> holds when the unit \<open>c\<close> after such a text ends the loop:
  it is not a digit, and if it is a point then a point has been stored already.
\<close>

fun float_run :: "bool \<Rightarrow> char list \<Rightarrow> bool" where
  "float_run point [] = True"
| "float_run point (c # cs) =
     (if c = CHR ''.'' then \<not> point \<and> float_run True cs
      else ascii_is_digit c 10 \<and> float_run point cs)"

definition ends_float_run :: "bool \<Rightarrow> char list \<Rightarrow> char \<Rightarrow> bool" where
  "ends_float_run point ds c =
     (if c = CHR ''.'' then point \<or> CHR ''.'' \<in> set ds else \<not> ascii_is_digit c 10)"

section \<open>The entry points of scan.h\<close>

text \<open>The wrapped range of a scanning context is the list of the units from its cursor to
  its end.\<close>

text \<open>
  Modelled from the spec: \<^verbatim>\<open>read_code_unit\<close> is not among the sources. It returns the next
  unit or \<open>end_of_range\<close>, and passes the unit only when asked to advance.
\<close>

fun read_code_unit :: "char list \<Rightarrow> bool \<Rightarrow> (error + char) \<times> char list" where
  "read_code_unit [] advance = (Inl end_of_range, [])"
| "read_code_unit (c # cs) advance = (Inr c, if advance then cs else c # cs)"

text \<open>\<^verbatim>\<open>detail::read_single\<close> for a character separator: \<^verbatim>\<open>read_code_unit(r)\<close>, which
  advances.\<close>

definition read_single :: "char list \<Rightarrow> (error + char) \<times> char list" where
  "read_single r = read_code_unit r True"

text \<open>The container of \<^verbatim>\<open>scan_list\<close>: what \<^verbatim>\<open>push_back\<close> has stored, in order, and
  the bound \<^verbatim>\<open>max_size()\<close>.\<close>

record 'v container =
  elems :: "'v list"
  max_size :: nat

definition size_of :: "'v container \<Rightarrow> nat" where
  "size_of c = length (elems c)"

definition push_back :: "'v container \<Rightarrow> 'v \<Rightarrow> 'v container" where
  "push_back c v = c\<lparr>elems := elems c @ [v]\<rparr>"

text \<open>
  \<^verbatim>\<open>scan_list\<close>: \<open>visit\<close> stands for \<^verbatim>\<open>visit(ctx, pctx, cargs)\<close>, the scan of one value
  of the container's value type from the context's range, which is not among the sources:
  it gives the value or the error, and the range it leaves. The result is the error of
  the returned \<^verbatim>\<open>wrapped_error\<close> (\<open>None\<close> for success), the leftover range and the
  container. The loop is \<^verbatim>\<open>while (true)\<close>: a call that does not return is \<open>None\<close>.
\<close>

partial_function (option) scan_list ::
  "(char list \<Rightarrow> (error + 'v) \<times> char list) \<Rightarrow> char \<Rightarrow> char list \<Rightarrow> 'v container
   \<Rightarrow> (error option \<times> char list \<times> 'v container) option" where
  "scan_list visit separator r c =
     (if size_of c = max_size c then Some (None, r, c)
      else case visit r of
          (Inl err, r1) \<Rightarrow>
            if err = end_of_range then Some (None, r1, c) else Some (Some err, r1, c)
        | (Inr v, r1) \<Rightarrow>
            if separator \<noteq> NUL then
              (case read_single r1 of
                 (Inl e, r2) \<Rightarrow>
                   if e = end_of_range then Some (None, r2, push_back c v)
                   else Some (Some e, r2, push_back c v)
               | (Inr ch, r2) \<Rightarrow>
                   if ch = separator then scan_list visit separator r2 (push_back c v)
                   else Some (None, r2, push_back c v))
            else scan_list visit separator r1 (push_back c v))"

text \<open>
  The inner loop of \<^verbatim>\<open>scan_list_until\<close>, which runs after each value: it peeks at the next
  unit with \<^verbatim>\<open>read_code_unit(ctx.range(), false)\<close> and tells whether scanning goes on.
  At the end of the range and at the unit \<open>until\<close> it stops the scanning, without
  advancing; white space of the static locale is passed; one separator is passed.
\<close>

fun after_value :: "char \<Rightarrow> char \<Rightarrow> bool \<Rightarrow> char list \<Rightarrow> bool \<times> char list" where
  "after_value until separator sep_found [] = (False, [])"
| "after_value until separator sep_found (next # rest) =
     (if next = until then (False, next # rest)
      else if is_space classic_locale next then after_value until separator sep_found rest
      else if separator \<noteq> NUL then
        (if next \<noteq> separator \<or> sep_found then (True, next # rest)
         else after_value until separator True rest)
      else (True, next # rest))"

partial_function (option) scan_list_until ::
  "(char list \<Rightarrow> (error + 'v) \<times> char list) \<Rightarrow> char \<Rightarrow> char \<Rightarrow> char list \<Rightarrow> 'v container
   \<Rightarrow> (error option \<times> char list \<times> 'v container) option" where
  "scan_list_until visit until separator r c =
     (if size_of c = max_size c then Some (None, r, c)
      else case visit r of
          (Inl err, r1) \<Rightarrow>
            if err = end_of_range then Some (None, r1, c) else Some (Some err, r1, c)
        | (Inr v, r1) \<Rightarrow>
            (case after_value until separator False r1 of
               (scanning, r2) \<Rightarrow>
                 if scanning then scan_list_until visit until separator r2 (push_back c v)
                 else Some (None, r2, push_back c v)))"

text \<open>
  Modelled from the spec: \<^verbatim>\<open>visit\<close> and the integer scanner of the range-based reader are
  not among the sources. For one \<^verbatim>\<open>int\<close> argument with the default specifier: leading
  white space is skipped; at the end of the range the error is \<open>end_of_range\<close>; an optional
  sign and a run of decimal digits are read, up to the first unit that is not a digit,
  which is left in the range; no digit is \<open>invalid_scanned_value\<close> and a value outside the
  32-bit range is \<open>value_out_of_range\<close>. On an error the range is restored to where the
  scan began.
\<close>

definition is_dec_digit :: "char \<Rightarrow> bool" where
  "is_dec_digit c = ascii_is_digit c 10"

definition dec_value :: "char list \<Rightarrow> int" where
  "dec_value ds = foldl (\<lambda>a c. a * 10 + digit_value c) 0 ds"

definition visit_int :: "char list \<Rightarrow> (error + int) \<times> char list" where
  "visit_int r =
     (let r1 = dropWhile (is_space classic_locale) r in
      if r1 = [] then (Inl end_of_range, r)
      else
        let neg = (hd r1 = CHR ''-'');
            r2 = (if hd r1 = CHR ''-'' \<or> hd r1 = CHR ''+'' then tl r1 else r1);
            ds = takeWhile is_dec_digit r2;
            n = (if neg then - dec_value ds else dec_value ds)
        in if ds = [] then (Inl invalid_scanned_value, r)
           else if n < - (2 ^ 31) \<or> 2 ^ 31 \<le> n then (Inl value_out_of_range, r)
           else (Inr n, dropWhile is_dec_digit r2))"

text \<open>A \<^verbatim>\<open>std::vector<int>\<close> that is empty; its \<^verbatim>\<open>max_size()\<close> on a 64-bit platform.\<close>

definition empty_vector :: "int container" where
  "empty_vector = \<lparr>elems = [], max_size = 2305843009213693951\<rparr>"

subsection \<open>getline\<close>

text \<open>
  Modelled from the spec: the range wrapper, \<^verbatim>\<open>wrap\<close> and the wrapper's operations are
  not among the sources. The wrapper holds the units from its cursor to its end, the units
  from its rollback point, and whether the source is contiguous. \<open>wrap\<close> constructs the
  wrapper at the start of the source; \<open>advance\<close> passes one unit, and as the wrapper never
  exposes a position past its end, the cursor stays where it is at the end;
  \<open>set_rollback_point\<close> saves the cursor and \<open>reset_to_rollback_point\<close> restores it.
\<close>

record wrapped_range =
  units :: "char list"
  rollback :: "char list"
  contiguous :: bool

definition wrap :: "bool \<Rightarrow> char list \<Rightarrow> wrapped_range" where
  "wrap contig src = \<lparr>units = src, rollback = src, contiguous = contig\<rparr>"

definition advance :: "wrapped_range \<Rightarrow> wrapped_range" where
  "advance w = (case units w of [] \<Rightarrow> w | c # cs \<Rightarrow> w\<lparr>units := cs\<rparr>)"

definition set_rollback_point :: "wrapped_range \<Rightarrow> wrapped_range" where
  "set_rollback_point w = w\<lparr>rollback := units w\<rparr>"

definition reset_to_rollback_point :: "wrapped_range \<Rightarrow> error option \<times> wrapped_range" where
  "reset_to_rollback_point w = (None, w\<lparr>units := rollback w\<rparr>)"

text \<open>The argument \<open>until\<close> of \<^verbatim>\<open>getline\<close>: a code unit, or a code point given by its
  number.\<close>

datatype until_arg = until_unit char | until_code_point nat

text \<open>
  Modelled from the spec: \<^verbatim>\<open>encode_code_point\<close> is not among the sources. The units of
  the input are those of UTF-8 for the 8-bit character type: the encoding of a code point
  has one to four units, and a number beyond the last code point has none.
\<close>

definition encode_code_point :: "nat \<Rightarrow> char list option" where
  "encode_code_point cp =
     (if cp < 0x80 then Some [char_of cp]
      else if cp < 0x800 then
        Some [char_of (0xC0 + cp div 64), char_of (0x80 + cp mod 64)]
      else if cp < 0x10000 then
        Some [char_of (0xE0 + cp div 4096), char_of (0x80 + cp div 64 mod 64),
              char_of (0x80 + cp mod 64)]
      else if cp < 0x110000 then
        Some [char_of (0xF0 + cp div 262144), char_of (0x80 + cp div 4096 mod 64),
              char_of (0x80 + cp div 64 mod 64), char_of (0x80 + cp mod 64)]
      else None)"

text \<open>
  \<^verbatim>\<open>detail::until_pred<CharT>\<close>: the array \<open>until\<close> of four units (\<open>until_arr\<close>) and the
  number \<open>size\<close> of them in use (\<open>size_used\<close>). The constructor from a unit stores it with \<open>size\<close> 1; the constructor
  from a code point stores its encoding, and \<^verbatim>\<open>SCN_ENSURE\<close> stops the call (\<open>None\<close>) when
  there is none.
\<close>

record until_pred =
  until_arr :: "char list"
  size_used :: nat

fun make_until_pred :: "until_arg \<Rightarrow> until_pred option" where
  "make_until_pred (until_unit ch) = Some \<lparr>until_arr = [ch, NUL, NUL, NUL], size_used = 1\<rparr>"
| "make_until_pred (until_code_point cp) =
     (case encode_code_point cp of
        None \<Rightarrow> None
      | Some enc \<Rightarrow>
          Some \<lparr>until_arr = enc @ replicate (4 - length enc) NUL, size_used = length enc\<rparr>)"

text \<open>\<^verbatim>\<open>until_pred::operator()\<close> on a span of units: false when the span has not \<open>size\<close>
  units, and otherwise the comparison of the span with the first units of \<open>until\<close>.\<close>

definition pred_holds :: "until_pred \<Rightarrow> char list \<Rightarrow> bool" where
  "pred_holds p ch =
     (if length ch \<noteq> size_used p then False else ch = take (length ch) (until_arr p))"

definition is_multibyte :: "until_pred \<Rightarrow> bool" where
  "is_multibyte p = (size_used p \<noteq> 1)"

text \<open>
  Modelled from the spec: \<^verbatim>\<open>read_code_point\<close> is not among the sources. The lead unit
  of a code point tells how many units it has; an invalid lead unit is the error
  \<open>invalid_encoding\<close> (\<open>None\<close> here).
\<close>

definition code_point_length :: "char \<Rightarrow> nat option" where
  "code_point_length c =
     (let n = (of_char c :: nat) in
      if n < 0x80 then Some 1
      else if 0xC0 \<le> n \<and> n < 0xE0 then Some 2
      else if 0xE0 \<le> n \<and> n < 0xF0 then Some 3
      else if 0xF0 \<le> n \<and> n < 0xF8 then Some 4
      else None)"

text \<open>
  Modelled from the spec: \<^verbatim>\<open>read_until_space_zero_copy\<close> and \<^verbatim>\<open>read_until_space\<close> are
  not among the sources. Both read up to the first item that satisfies the stop predicate,
  where an item is one unit for a predicate of one unit and one code point for a multibyte
  predicate, and both fail with \<open>end_of_range\<close> on a range that is already at its end.
  \<open>split_at_stop\<close> gives the units in front of the stop item, the stop item (empty when
  there is none) and the units behind it. The zero-copy form gives a view of the units
  read, the stop item included when \<open>keep_final\<close> is set, and leaves the cursor behind it;
  on a source that is not contiguous it fails softly with an empty view and reads nothing.
  The unit-wise form appends the units to the output, the stop item included when
  \<open>keep_final\<close> is set, and leaves the cursor on the stop item, which its caller passes
  with \<open>advance\<close>.
\<close>

function split_at_stop ::
  "until_pred \<Rightarrow> char list \<Rightarrow> error + (char list \<times> char list \<times> char list)" where
  "split_at_stop p [] = Inr ([], [], [])"
| "split_at_stop p (c # cs) =
     (if \<not> is_multibyte p then
        (if pred_holds p [c] then Inr ([], [c], cs)
         else case split_at_stop p cs of
             Inl e \<Rightarrow> Inl e
           | Inr (front, stop, rest) \<Rightarrow> Inr (c # front, stop, rest))
      else case code_point_length c of
          None \<Rightarrow> Inl invalid_encoding
        | Some k \<Rightarrow>
            if pred_holds p (c # take (k - 1) cs) then Inr ([], c # take (k - 1) cs, drop (k - 1) cs)
            else case split_at_stop p (drop (k - 1) cs) of
                Inl e \<Rightarrow> Inl e
              | Inr (front, stop, rest) \<Rightarrow> Inr (c # take (k - 1) cs @ front, stop, rest))"
  by pat_completeness auto
termination
  by (relation "measure (\<lambda>(p, r). length r)") auto

definition read_until_space_zero_copy ::
  "wrapped_range \<Rightarrow> until_pred \<Rightarrow> bool \<Rightarrow> (error + char list) \<times> wrapped_range" where
  "read_until_space_zero_copy w pred keep_final =
     (if \<not> contiguous w then (Inr [], w)
      else if units w = [] then (Inl end_of_range, w)
      else case split_at_stop pred (units w) of
          Inl e \<Rightarrow> (Inl e, w)
        | Inr (front, stop, rest) \<Rightarrow>
            if stop = [] then (Inr front, w\<lparr>units := []\<rparr>)
            else if keep_final then (Inr (front @ stop), w\<lparr>units := rest\<rparr>)
            else (Inr front, w\<lparr>units := stop @ rest\<rparr>))"

definition read_until_space ::
  "wrapped_range \<Rightarrow> until_pred \<Rightarrow> bool \<Rightarrow> error option \<times> char list \<times> wrapped_range" where
  "read_until_space w pred keep_final =
     (if units w = [] then (Some end_of_range, [], w)
      else case split_at_stop pred (units w) of
          Inl e \<Rightarrow> (Some e, [], w)
        | Inr (front, stop, rest) \<Rightarrow>
            if stop = [] then (None, front, w\<lparr>units := []\<rparr>)
            else (None, if keep_final then front @ stop else front, w\<lparr>units := stop @ rest\<rparr>))"

text \<open>
  \<^verbatim>\<open>detail::getline_impl\<close> for a string that owns its units: the error (\<open>None\<close> for
  success), the range and the string. The call is undefined (\<open>None\<close>) where the predicate
  cannot be built and where it looks at the last unit of an empty \<open>tmp\<close>.
\<close>

definition getline_impl ::
  "wrapped_range \<Rightarrow> string \<Rightarrow> until_arg \<Rightarrow> (error option \<times> wrapped_range \<times> string) option" where
  "getline_impl r str until_a =
     (case make_until_pred until_a of
        None \<Rightarrow> None
      | Some pred \<Rightarrow>
          (case read_until_space_zero_copy r pred True of
             (Inl e, r1) \<Rightarrow> Some (Some e, r1, str)
           | (Inr s, r1) \<Rightarrow>
               if length s \<noteq> 0 then
                 let size = (if pred_holds pred [last s] then length s - 1 else length s)
                 in Some (None, r1, take size s)
               else
                 (case read_until_space r1 pred True of
                    (Some e, tmp, r2) \<Rightarrow> Some (Some e, r2, str)
                  | (None, tmp, r2) \<Rightarrow>
                      if tmp = [] then None
                      else
                        let tmp' = (if pred_holds pred [last tmp] then butlast tmp else tmp)
                        in Some (None, advance r2, tmp'))))"

text \<open>\<^verbatim>\<open>getline\<close>: \<open>contig\<close> tells whether the source \<open>src\<close> is contiguous. The leftover
  range of the result is the wrapper's range.\<close>

definition getline ::
  "bool \<Rightarrow> char list \<Rightarrow> string \<Rightarrow> until_arg \<Rightarrow> (error option \<times> wrapped_range \<times> string) option" where
  "getline contig src str until_a =
     (let wrapped = wrap contig src in
      case getline_impl wrapped str until_a of
        None \<Rightarrow> None
      | Some (Some e, w, str') \<Rightarrow>
          (case reset_to_rollback_point w of
             (Some e', w') \<Rightarrow> Some (Some e', w', str')
           | (None, w') \<Rightarrow> Some (Some e, w', str'))
      | Some (None, w, str') \<Rightarrow> Some (None, set_rollback_point w, str'))"

subsection \<open>scan\<close>

text \<open>
  Modelled from the spec: \<^verbatim>\<open>vscan\<close>, the format-string parser and the argument store are
  not among the sources. An argument is the pair of hooks of its scanner: \<open>parse_hook\<close>
  inspects the body of the specifier, \<open>scan_hook\<close> reads the value from the range. The
  dispatcher walks the format string: white space in the format skips white space in the
  input; an opening brace starts a specifier, which is malformed without its closing brace
  or its argument and otherwise parsed and scanned by the next argument; any other unit
  must match the next unit of the input. A failing scanner leaves the range at the
  position before its specifier. The result is the error, the leftover range and the
  values assigned so far.
\<close>

record 'v arg =
  parse_hook :: "string \<Rightarrow> error option"
  scan_hook :: "char list \<Rightarrow> (error + 'v) \<times> char list"

function vscan :: "char list \<Rightarrow> string \<Rightarrow> 'v arg list \<Rightarrow> error option \<times> char list \<times> 'v list" where
  "vscan r [] args = (None, r, [])"
| "vscan r (c # fmt) args =
     (if is_space classic_locale c then
        vscan (dropWhile (is_space classic_locale) r) (dropWhile (is_space classic_locale) fmt) args
      else if c = CHR ''{'' then
        (if dropWhile (\<lambda>x. x \<noteq> CHR ''}'') fmt = [] then (Some invalid_format_string, r, [])
         else case args of
             [] \<Rightarrow> (Some invalid_format_string, r, [])
           | a # as \<Rightarrow>
               (case parse_hook a (takeWhile (\<lambda>x. x \<noteq> CHR ''}'') fmt) of
                  Some e \<Rightarrow> (Some e, r, [])
                | None \<Rightarrow>
                    (case scan_hook a r of
                       (Inl e, r1) \<Rightarrow> (Some e, r, [])
                     | (Inr v, r1) \<Rightarrow>
                         (case vscan r1 (tl (dropWhile (\<lambda>x. x \<noteq> CHR ''}'') fmt)) as of
                            (e, r2, vs) \<Rightarrow> (e, r2, v # vs)))))
      else (case r of
              [] \<Rightarrow> (Some end_of_range, r, [])
            | x # xs \<Rightarrow> if x = c then vscan xs fmt args else (Some invalid_scanned_value, r, [])))"
  by pat_completeness auto
termination
  by (relation "measure (\<lambda>(r, fmt, args). length fmt)")
     (auto simp: length_dropWhile_le less_Suc_eq_le intro: le_trans[OF diff_le_self])

text \<open>
  \<^verbatim>\<open>detail::scan_boilerplate\<close> and \<^verbatim>\<open>scan\<close>: the
  \<^verbatim>\<open>static_assert(sizeof...(Args) > 0, "Have to scan at least a single argument")\<close> rejects
  a call without arguments when it is compiled; such a call has no result (\<open>None\<close>).
\<close>

definition scan_boilerplate ::
  "char list \<Rightarrow> string \<Rightarrow> 'v arg list \<Rightarrow> (error option \<times> char list \<times> 'v list) option" where
  "scan_boilerplate r f a = (if length a > 0 then Some (vscan r f a) else None)"

definition scan :: "char list \<Rightarrow> string \<Rightarrow> 'v arg list \<Rightarrow> (error option \<times> char list \<times> 'v list) option" where
  "scan r f a = scan_boilerplate r f a"

text \<open>Modelled from the spec: the argument of an \<^verbatim>\<open>int\<close> out-parameter, whose parse hook
  accepts the empty specifier body and whose scan hook is the integer scan above.\<close>

definition int_arg :: "int arg" where
  "int_arg = \<lparr>parse_hook = (\<lambda>body. if body = [] then None else Some invalid_format_string),
              scan_hook = visit_int\<rparr>"

subsection \<open>What scan_list is to compute\<close>

text \<open>
  Why a list scan ends: the container is at its maximal size, the range is at its end,
  the unit after a value is not the separator, or a value scan or a separator read has
  failed with an error. Only the last is reported as an error.
\<close>

datatype stop = at_max_size | at_end_of_range | at_unexpected_unit | scan_failed error

fun stop_error :: "stop \<Rightarrow> error option" where
  "stop_error (scan_failed e) = Some e"
| "stop_error st = None"

text \<open>
  The list scan in the words of its description: with room for \<open>room\<close> more values, values
  are scanned one after the other from the range, each followed by the separator when one
  is given. The result is the list of the values in the order of the input, the reason
  for the end and the range that is left.
\<close>

fun list_run ::
  "(char list \<Rightarrow> (error + 'v) \<times> char list) \<Rightarrow> char \<Rightarrow> nat \<Rightarrow> char list
   \<Rightarrow> 'v list \<times> stop \<times> char list" where
  "list_run visit separator 0 r = ([], at_max_size, r)"
| "list_run visit separator (Suc room) r =
     (case visit r of
        (Inl e, r1) \<Rightarrow>
          if e = end_of_range then ([], at_end_of_range, r1) else ([], scan_failed e, r1)
      | (Inr v, r1) \<Rightarrow>
          if separator = NUL then
            (case list_run visit separator room r1 of (vs, st, r') \<Rightarrow> (v # vs, st, r'))
          else
            (case read_single r1 of
               (Inl e, r2) \<Rightarrow>
                 if e = end_of_range then ([v], at_end_of_range, r2) else ([v], scan_failed e, r2)
             | (Inr ch, r2) \<Rightarrow>
                 if ch = separator then
                   (case list_run visit separator room r2 of (vs, st, r') \<Rightarrow> (v # vs, st, r'))
                 else ([v], at_unexpected_unit, r2)))"

text \<open>The result of \<^verbatim>\<open>scan_list\<close> on the container \<open>c\<close> that such a run amounts to: the
  error of the end, the range that is left, and \<open>c\<close> with the values pushed behind its
  elements.\<close>

definition list_result ::
  "'v container \<Rightarrow> 'v list \<times> stop \<times> char list \<Rightarrow> (error option \<times> char list \<times> 'v container) option" where
  "list_result c run = (case run of (vs, st, r') \<Rightarrow> Some (stop_error st, r', c\<lparr>elems := elems c @ vs\<rparr>))"

subsection \<open>The context of a scan\<close>

text \<open>
  The process with its global locale, and how a scan is given its locale: \<^verbatim>\<open>scan\<close> and
  the other default entry points bind none, \<^verbatim>\<open>scan_localized\<close> binds the locale it is
  passed.

  Modelled from the spec: the construction of the context is not among the sources. The
  locale reference of a context has the static profile unless a locale is bound at the
  call site; the process locale is no part of it.
\<close>

record environment =
  process_locale :: locale_ref




section \<open>Properties\<close>

text \<open>
  C10. Scanning into a span of size zero is a successful no-op: whatever the locale and the
  stream (also an empty one), the scanner returns ok, the span is unchanged and the stream
  is left exactly as it was.
\<close>

theorem scan_span_size_zero:
  "scan_span loc [] s = Returned (Inr []) s"
  by (simp add: scan_span_def)

subsection \<open>The integer scanner on decimal text\<close>

lemma digit_char_cases:
  assumes "d < 10"
  shows "digit_char d \<in> set ''0123456789''"
proof -
  have "d \<in> {0,1,2,3,4,5,6,7,8,9}" using assms by auto
  then show ?thesis by (auto simp: digit_char_def)
qed

lemma of_char_digit_char: "d < 10 \<Longrightarrow> (of_char (digit_char d) :: int) = 48 + int d"
proof -
  assume "d < 10"
  then have "d \<in> {0,1,2,3,4,5,6,7,8,9}" by auto
  then show ?thesis by (auto simp: digit_char_def)
qed

lemma digit_value_digit_char: "d < 10 \<Longrightarrow> digit_value (digit_char d) = int d"
  by (simp add: digit_value_def of_char_digit_char Let_def)

lemma ascii_is_digit_digit_char: "d < 10 \<Longrightarrow> ascii_is_digit (digit_char d) 10"
  by (simp add: ascii_is_digit_def digit_value_def of_char_digit_char Let_def)

lemma plain_text_chars:
  "plain_decimal_locale loc \<Longrightarrow> c \<in> set ''-0123456789'' \<Longrightarrow>
   \<not> is_space loc c \<and> thousands_separator loc \<noteq> c"
  unfolding plain_decimal_locale_def by blast

lemma plain_digit_chars:
  "plain_decimal_locale loc \<Longrightarrow> c \<in> set ''0123456789'' \<Longrightarrow> loc_is_digit loc c"
  unfolding plain_decimal_locale_def by blast

lemma digit_char_not_sign: "d < 10 \<Longrightarrow> digit_char d \<noteq> CHR ''-'' \<and> digit_char d \<noteq> CHR ''+''"
proof -
  assume "d < 10"
  then have "d \<in> {0,1,2,3,4,5,6,7,8,9}" by auto
  then show ?thesis by (auto simp: digit_char_def)
qed

lemma set_dec_digits: "c \<in> set (dec_digits n) \<Longrightarrow> \<exists>d<10. c = digit_char d"
proof (induction n rule: dec_digits.induct)
  case (1 n)
  show ?case
  proof (cases "n < 10")
    case True
    with "1.prems" show ?thesis by (subst (asm) dec_digits.simps) auto
  next
    case False
    have "dec_digits n = dec_digits (n div 10) @ [digit_char (n mod 10)]"
      using False by (subst dec_digits.simps) simp
    then have "c \<in> set (dec_digits (n div 10)) \<or> c = digit_char (n mod 10)"
      using "1.prems" by auto
    then show ?thesis
    proof
      assume "c \<in> set (dec_digits (n div 10))"
      then show ?thesis using "1.IH"[OF False] by blast
    next
      assume "c = digit_char (n mod 10)"
      moreover have "n mod 10 < 10" by simp
      ultimately show ?thesis by blast
    qed
  qed
qed

lemma dec_digits_nonempty: "dec_digits n \<noteq> []"
  by (subst dec_digits.simps) simp

lemma int_fill_plain:
  "\<forall>c \<in> set ds. \<not> is_space loc c \<and> thousands_separator loc \<noteq> c \<Longrightarrow> length ds \<le> n \<Longrightarrow>
   int_fill loc n buf ds = Returned (Inr (buf @ ds @ replicate (n - length ds) NUL)) []"
proof (induction n arbitrary: buf ds)
  case 0
  then show ?case by simp
next
  case (Suc n)
  show ?case
  proof (cases ds)
    case Nil
    then show ?thesis by simp
  next
    case (Cons c cs)
    then have "int_fill loc n (buf @ [c]) cs =
        Returned (Inr ((buf @ [c]) @ cs @ replicate (n - length cs) NUL)) []"
      using Suc.prems by (intro Suc.IH) auto
    then show ?thesis using Cons Suc.prems by simp
  qed
qed

lemma is_digit_plain:
  "plain_decimal_locale loc \<Longrightarrow> d < 10 \<Longrightarrow> is_digit loc (digit_char d) 10 l"
  using plain_digit_chars[OF _ digit_char_cases, of loc d] ascii_is_digit_digit_char[of d]
  by (simp add: is_digit_def)

lemma not_is_digit_NUL: "plain_decimal_locale loc \<Longrightarrow> \<not> is_digit loc NUL 10 l"
  by (simp add: is_digit_def plain_decimal_locale_def ascii_is_digit_def NUL_def Let_def)

lemma accumulate_pad:
  "plain_decimal_locale loc \<Longrightarrow> base sc = 10 \<Longrightarrow> accumulate loc sc tmp (replicate k NUL) = tmp"
  by (cases k) (simp_all add: not_is_digit_NUL)

lemma accumulate_digit:
  "plain_decimal_locale loc \<Longrightarrow> base sc = 10 \<Longrightarrow> d < 10 \<Longrightarrow>
   accumulate loc sc (word_of_int t) (digit_char d # cs) =
   accumulate loc sc (word_of_int (t * 10 - int d)) cs"
  by (simp add: is_digit_plain char_to_int_def digit_value_digit_char)

lemma accumulate_dec_digits:
  "plain_decimal_locale loc \<Longrightarrow> base sc = 10 \<Longrightarrow>
   accumulate loc sc (word_of_int t :: 'a::len word) (dec_digits n @ rest) =
   accumulate loc sc (word_of_int (t * 10 ^ length (dec_digits n) - int n)) rest"
proof (induction n arbitrary: t rest rule: dec_digits.induct)
  case (1 n)
  show ?case
  proof (cases "n < 10")
    case True
    then have "dec_digits n = [digit_char n]" by (subst dec_digits.simps) simp
    then show ?thesis using True "1.prems" accumulate_digit[of loc sc n t rest] by simp
  next
    case False
    have dd: "dec_digits n = dec_digits (n div 10) @ [digit_char (n mod 10)]"
      using False by (subst dec_digits.simps) simp
    have "accumulate loc sc (word_of_int t :: 'a word) (dec_digits n @ rest) =
          accumulate loc sc (word_of_int t) (dec_digits (n div 10) @ (digit_char (n mod 10) # rest))"
      by (simp add: dd)
    also have "\<dots> = accumulate loc sc
          (word_of_int (t * 10 ^ length (dec_digits (n div 10)) - int (n div 10)))
          (digit_char (n mod 10) # rest)"
      by (rule "1.IH"[OF False "1.prems"])
    also have "\<dots> = accumulate loc sc
          (word_of_int ((t * 10 ^ length (dec_digits (n div 10)) - int (n div 10)) * 10 - int (n mod 10)))
          rest"
      using "1.prems" by (intro accumulate_digit) simp_all
    also have "(t * 10 ^ length (dec_digits (n div 10)) - int (n div 10)) * 10 - int (n mod 10)
        = t * 10 ^ length (dec_digits n) - int n"
    proof -
      have "int n = int (n div 10) * 10 + int (n mod 10)"
        by (metis mult.commute mult_div_mod_eq of_nat_add of_nat_mult of_nat_numeral)
      then show ?thesis by (simp add: dd algebra_simps)
    qed
    finally show ?thesis .
  qed
qed

lemma dec_text_chars:
  assumes "plain_decimal_locale loc" and "c \<in> set (dec_text n)"
  shows "\<not> is_space loc c \<and> thousands_separator loc \<noteq> c"
proof -
  have "c = CHR ''-'' \<or> (\<exists>d<10. c = digit_char d)"
    using assms(2) set_dec_digits by (auto simp: dec_text_def split: if_splits)
  then have "c \<in> set ''-0123456789''"
    using digit_char_cases by auto
  then show ?thesis using assms(1) by (rule plain_text_chars[rotated])
qed

lemma sign_tmp_digit:
  fixes tmp :: "'a::len word"
  assumes "plain_decimal_locale loc" and "base sc = 10" and "d < 10"
  shows "sign_tmp u loc sc (digit_char d) =
         Inr (True, (0 * word_of_int (base sc) - char_to_int (digit_char d) (base sc) (localized sc) :: 'a word))"
  using assms digit_char_not_sign[of d] is_digit_plain[of loc d "localized sc"]
  by (simp add: sign_tmp_def)

lemma scan_int_dec_text:
  fixes n :: int
  assumes plain: "plain_decimal_locale loc" and b: "base sc = 10"
    and len: "length (dec_text n) \<le> max_digits + 1"
    and sg: "is_unsigned \<longrightarrow> 0 \<le> n"
  shows "scan_int is_unsigned max_digits sc loc (dec_text n) =
         Returned (Inr (word_of_int n :: 'a::len word)) []"
proof -
  define pad where "pad = replicate (max_digits + 1 - length (dec_text n)) NUL"
  have fill: "int_fill loc (max_digits + 1) [] (dec_text n) = Returned (Inr (dec_text n @ pad)) []"
    using int_fill_plain[of "dec_text n" loc "max_digits + 1" "[]"] dec_text_chars[OF plain] len
    by (simp add: pad_def)
  have acc: "accumulate loc sc (0 :: 'a word) (dec_digits m @ pad) = word_of_int (- int m)" for m
  proof -
    have "accumulate loc sc (word_of_int 0 :: 'a word) (dec_digits m @ pad) =
          accumulate loc sc (word_of_int (0 * 10 ^ length (dec_digits m) - int m)) pad"
      by (rule accumulate_dec_digits[OF plain b])
    also have "\<dots> = word_of_int (0 * 10 ^ length (dec_digits m) - int m)"
      unfolding pad_def by (rule accumulate_pad[OF plain b])
    finally show ?thesis by simp
  qed
  show ?thesis
  proof (cases "n < 0")
    case True
    then have dtx: "dec_text n = CHR ''-'' # dec_digits (nat (- n))" by (simp add: dec_text_def)
    have nu: "\<not> is_unsigned" using sg True by auto
    have st: "sign_tmp is_unsigned loc sc (CHR ''-'') = Inr (False, (0 :: 'a word))"
      using nu by (simp add: sign_tmp_def)
    have "accumulate loc sc (0 :: 'a word) (dec_digits (nat (- n)) @ pad) = word_of_int n"
      using acc[of "nat (- n)"] True by simp
    then show ?thesis
      using fill st by (simp add: scan_int_def dtx)
  next
    case False
    then have dtx: "dec_text n = dec_digits (nat n)" by (simp add: dec_text_def)
    obtain c cs where ccs: "dec_digits (nat n) = c # cs"
      using dec_digits_nonempty[of "nat n"] by (cases "dec_digits (nat n)") auto
    then obtain d where d: "d < 10" "c = digit_char d"
      using set_dec_digits[of c "nat n"] by auto
    have st: "sign_tmp is_unsigned loc sc c =
        Inr (True, (0 * word_of_int (base sc) - char_to_int c (base sc) (localized sc) :: 'a word))"
      unfolding d(2) by (rule sign_tmp_digit[OF plain b d(1)])
    have "accumulate loc sc (0 :: 'a word) ((c # cs) @ pad) = word_of_int (- int (nat n))"
      using acc[of "nat n"] ccs by simp
    then have "accumulate loc sc
        (0 * word_of_int (base sc) - char_to_int c (base sc) (localized sc) :: 'a word) (cs @ pad)
        = word_of_int (- n)"
      using is_digit_plain[OF plain d(1), of "localized sc"] d(2) b False by simp
    then show ?thesis
      using fill st by (simp add: scan_int_def dtx ccs)
  qed
qed

lemma plain_classic: "plain_decimal_locale classic_locale"
  by (simp add: plain_decimal_locale_def classic_locale_def NUL_def)

lemma int_parse_default:
  "int_parse int_scanner_init ''{}'' = Some (Inr sc, rest) \<Longrightarrow> base sc = 10 \<and> localized sc"
  by (auto simp: int_scanner_init_def)

lemma sint_of_int_eq:
  "- (2 ^ (LENGTH('a) - 1)) \<le> x \<Longrightarrow> x < 2 ^ (LENGTH('a) - 1) \<Longrightarrow>
   sint (word_of_int x :: 'a::len word) = x"
  by (simp add: sint_sbintrunc' signed_take_bit_int_eq_self)

lemma word_of_int_below_min:
  "sint (word_of_int (- (2 ^ (LENGTH('a) - 1)) - 1) :: 'a::len word) = 2 ^ (LENGTH('a) - 1) - 1"
proof -
  have two: "(2::int) ^ LENGTH('a) = 2 * 2 ^ (LENGTH('a) - 1)"
    by (metis len_gt_0 power_eq_if less_numeral_extra(3))
  have "(word_of_int (- (2 ^ (LENGTH('a) - 1)) - 1) :: 'a word) =
        word_of_int ((2 ^ (LENGTH('a) - 1) - 1) - 2 ^ LENGTH('a))"
    by (simp add: two)
  also have "\<dots> = word_of_int (2 ^ (LENGTH('a) - 1) - 1) - word_of_int (2 ^ LENGTH('a))"
    by (simp only: word_of_int_homs)
  also have "\<dots> = word_of_int (2 ^ (LENGTH('a) - 1) - 1)"
    by (simp add: word_of_int_2p_len)
  finally have eq: "(word_of_int (- (2 ^ (LENGTH('a) - 1)) - 1) :: 'a word) =
        word_of_int (2 ^ (LENGTH('a) - 1) - 1)" .
  have "sint (word_of_int (2 ^ (LENGTH('a) - 1) - 1) :: 'a word) = 2 ^ (LENGTH('a) - 1) - 1"
    by (rule sint_of_int_eq) simp_all
  then show ?thesis by (simp only: eq)
qed

text \<open>
  C1. Integer round trip: for a signed or unsigned integer type of any width and every
  value \<open>n\<close> it can represent, scanning the decimal text of \<open>n\<close> with the format
  \<open>{}\<close> succeeds, consumes the text and sets the out-parameter to exactly \<open>n\<close>, negative
  values and the least value included. The locale is one under which decimal text is
  plain, and the buffer of \<open>max_digits + 1\<close> slots holds the text.
\<close>

theorem int_round_trip:
  fixes n :: int
  assumes "plain_decimal_locale loc"
    and "int_parse int_scanner_init ''{}'' = Some (Inr sc, rest)"
    and "length (dec_text n) \<le> max_digits + 1"
    and "if is_unsigned then 0 \<le> n \<and> n < 2 ^ LENGTH('a)
         else - (2 ^ (LENGTH('a) - 1)) \<le> n \<and> n < 2 ^ (LENGTH('a) - 1)"
  shows "\<exists>w :: 'a::len word.
           scan_int is_unsigned max_digits sc loc (dec_text n) = Returned (Inr w) [] \<and>
           (if is_unsigned then uint w else sint w) = n"
proof -
  have b: "base sc = 10" using int_parse_default[OF assms(2)] by simp
  have sg: "is_unsigned \<longrightarrow> 0 \<le> n" using assms(4) by (auto split: if_splits)
  have "scan_int is_unsigned max_digits sc loc (dec_text n) =
        Returned (Inr (word_of_int n :: 'a word)) []"
    by (rule scan_int_dec_text[OF assms(1) b assms(3) sg])
  moreover have "(if is_unsigned then uint (word_of_int n :: 'a word)
                  else sint (word_of_int n :: 'a word)) = n"
  proof (cases is_unsigned)
    case True
    then have "0 \<le> n" "n < 2 ^ LENGTH('a)" using assms(4) by simp_all
    then show ?thesis using True by (simp add: uint_word_of_int take_bit_int_eq_self)
  next
    case False
    then have "- (2 ^ (LENGTH('a) - 1)) \<le> n" "n < 2 ^ (LENGTH('a) - 1)" using assms(4) by simp_all
    then show ?thesis using False by (simp add: sint_of_int_eq)
  qed
  ultimately show ?thesis by blast
qed

lemma dec_text_m128: "dec_text (- 128) = ''-128''"
  by (simp add: dec_text_def dec_digits.simps digit_char_def)

theorem int_round_trip_witness:
  "plain_decimal_locale classic_locale \<and>
   int_parse int_scanner_init ''{}'' = Some (Inr \<lparr>base = 10, localized = True\<rparr>, ''}'') \<and>
   length (dec_text (- 128)) \<le> 4 + 1 \<and>
   (\<exists>w :: 8 word. scan_int False 4 \<lparr>base = 10, localized = True\<rparr> classic_locale ''-128''
        = Returned (Inr w) [] \<and> sint w = - 128)"
proof -
  have p: "int_parse int_scanner_init ''{}'' = Some (Inr \<lparr>base = 10, localized = True\<rparr>, ''}'')"
    by (simp add: int_scanner_init_def)
  have l: "length (dec_text (- 128)) \<le> 4 + 1" by (simp add: dec_text_m128)
  have r: "if False then 0 \<le> (- 128 :: int) \<and> (- 128 :: int) < 2 ^ LENGTH(8)
           else - (2 ^ (LENGTH(8) - 1)) \<le> (- 128 :: int) \<and> (- 128 :: int) < 2 ^ (LENGTH(8) - 1)"
    by simp
  show ?thesis
    using int_round_trip[where 'a = 8, OF plain_classic p l r] plain_classic p l
    by (simp add: dec_text_m128)
qed

text \<open>
  C3 (as amended). Overflow boundary: for a signed integer type of any width, scanning the
  decimal text of its least value succeeds and yields that value; scanning the decimal text
  of the least value minus one succeeds as well, and yields the greatest value: the
  scanner has no overflow check and its arithmetic wraps around.
\<close>

theorem overflow_boundary:
  assumes "plain_decimal_locale loc"
    and "int_parse int_scanner_init ''{}'' = Some (Inr sc, rest)"
    and "length (dec_text (- (2 ^ (LENGTH('a) - 1)))) \<le> max_digits + 1"
    and "length (dec_text (- (2 ^ (LENGTH('a) - 1)) - 1)) \<le> max_digits + 1"
  shows "(\<exists>w :: 'a::len word.
            scan_int False max_digits sc loc (dec_text (- (2 ^ (LENGTH('a) - 1)))) = Returned (Inr w) [] \<and>
            sint w = - (2 ^ (LENGTH('a) - 1))) \<and>
         (\<exists>w :: 'a word.
            scan_int False max_digits sc loc (dec_text (- (2 ^ (LENGTH('a) - 1)) - 1)) = Returned (Inr w) [] \<and>
            sint w = 2 ^ (LENGTH('a) - 1) - 1)"
proof -
  have b: "base sc = 10" using int_parse_default[OF assms(2)] by simp
  have "scan_int False max_digits sc loc (dec_text (- (2 ^ (LENGTH('a) - 1)))) =
        Returned (Inr (word_of_int (- (2 ^ (LENGTH('a) - 1))) :: 'a word)) []"
    by (rule scan_int_dec_text[OF assms(1) b assms(3)]) simp
  moreover have "sint (word_of_int (- (2 ^ (LENGTH('a) - 1))) :: 'a word) = - (2 ^ (LENGTH('a) - 1))"
    by (rule sint_of_int_eq) simp_all
  moreover have "scan_int False max_digits sc loc (dec_text (- (2 ^ (LENGTH('a) - 1)) - 1)) =
        Returned (Inr (word_of_int (- (2 ^ (LENGTH('a) - 1)) - 1) :: 'a word)) []"
    by (rule scan_int_dec_text[OF assms(1) b assms(4)]) simp
  ultimately show ?thesis using word_of_int_below_min[where 'a = 'a] by blast
qed

lemma dec_text_m129: "dec_text (- 129) = ''-129''"
  by (simp add: dec_text_def dec_digits.simps digit_char_def)

text \<open>
  C3 as stated fails: for the 8-bit signed type, scanning \<open>-129\<close>, the text of the least
  value minus one, returns ok with the value 127 and not the error \<open>value_out_of_range\<close>.
\<close>

theorem overflow_boundary_counterexample:
  "dec_text (- (2 ^ (LENGTH(8) - 1)) - 1) = ''-129'' \<and>
   int_parse int_scanner_init ''{}'' = Some (Inr \<lparr>base = 10, localized = True\<rparr>, ''}'') \<and>
   scan_int False 4 \<lparr>base = 10, localized = True\<rparr> classic_locale ''-129''
     = (Returned (Inr 127) [] :: 8 word outcome)"
proof -
  have "scan_int False 4 \<lparr>base = 10, localized = True\<rparr> classic_locale (dec_text (- 129))
        = Returned (Inr (word_of_int (- 129) :: 8 word)) []"
    by (rule scan_int_dec_text[OF plain_classic]) (simp_all add: dec_text_m129)
  then show ?thesis by (simp add: dec_text_m129 int_scanner_init_def)
qed

theorem overflow_boundary_witness:
  "plain_decimal_locale classic_locale \<and>
   int_parse int_scanner_init ''{}'' = Some (Inr \<lparr>base = 10, localized = True\<rparr>, ''}'') \<and>
   (\<exists>w :: 8 word. scan_int False 4 \<lparr>base = 10, localized = True\<rparr> classic_locale ''-128''
        = Returned (Inr w) [] \<and> sint w = - 128) \<and>
   (\<exists>w :: 8 word. scan_int False 4 \<lparr>base = 10, localized = True\<rparr> classic_locale ''-129''
        = Returned (Inr w) [] \<and> sint w = 127)"
proof -
  have p: "int_parse int_scanner_init ''{}'' = Some (Inr \<lparr>base = 10, localized = True\<rparr>, ''}'')"
    by (simp add: int_scanner_init_def)
  have l1: "length (dec_text (- (2 ^ (LENGTH(8) - 1)))) \<le> 4 + 1" by (simp add: dec_text_m128)
  have l2: "length (dec_text (- (2 ^ (LENGTH(8) - 1)) - 1)) \<le> 4 + 1" by (simp add: dec_text_m129)
  show ?thesis
    using overflow_boundary[where 'a = 8, OF plain_classic p l1 l2] plain_classic p
    by (simp add: dec_text_m128 dec_text_m129)
qed

subsection \<open>The scanners and the process locale\<close>



subsection \<open>The bool scanner\<close>

lemma bool_fill_mismatch:
  "buf \<noteq> [] \<Longrightarrow> falsename loc \<noteq> [] \<Longrightarrow> truename loc \<noteq> [] \<Longrightarrow>
   hd buf \<noteq> hd (falsename loc) \<Longrightarrow> hd buf \<noteq> hd (truename loc) \<Longrightarrow>
   bool_fill loc n buf s = Returned (Inl invalid_scanned_value) (drop n s)"
proof (induction n arbitrary: buf s)
  case 0 then show ?case by simp
next
  case (Suc n)
  obtain b bs where buf: "buf = b # bs" using Suc.prems(1) by (cases buf) auto
  obtain f fs where f: "falsename loc = f # fs" using Suc.prems(2) by (cases "falsename loc") auto
  obtain t ts where t: "truename loc = t # ts" using Suc.prems(3) by (cases "truename loc") auto
  show ?case
  proof (cases s)
    case Nil then show ?thesis by simp
  next
    case (Cons c cs)
    have "bool_fill loc n (buf @ [c]) cs = Returned (Inl invalid_scanned_value) (drop n cs)"
      using Suc.IH[of "buf @ [c]" cs] Suc.prems by (simp add: buf)
    then show ?thesis using Cons Suc.prems buf f t by simp
  qed
qed

lemma scan_bool_name_step:
  assumes "falsename loc = f # fs" and "truename loc = t # ts"
    and "c \<noteq> CHR ''0''" and "c \<noteq> CHR ''1''"
  shows "scan_bool loc (c # s) =
      (if c = f then Returned (Inr False) s
       else if c = t then Returned (Inr True) s
       else bool_fill loc (max (length (truename loc)) (length (falsename loc)) - 1) [c] s)"
proof -
  obtain n where n: "max (length (truename loc)) (length (falsename loc)) = Suc n"
    using assms(1) by (cases "max (length (truename loc)) (length (falsename loc))") auto
  have sb: "scan_bool loc (c # s) = bool_fill loc (Suc n) [] (c # s)"
    using assms(3,4) n by (simp add: scan_bool_def putback_def Let_def)
  have step: "bool_fill loc (Suc n) [] (c # s) =
      (if c = f then Returned (Inr False) s
       else if c = t then Returned (Inr True) s
       else bool_fill loc n [c] s)"
    by (simp add: assms(1,2))
  show ?thesis unfolding sb step n by simp
qed

text \<open>
  C5 (as amended). Boolean scanning; the scanner has no localized flag and always tries the
  names of its locale. A first unit \<open>0\<close> yields false and \<open>1\<close> yields true, and that unit
  is consumed. For names that are not empty and begin with different units, neither of
  them \<open>0\<close> or \<open>1\<close>: an input that begins with \<open>falsename\<close> yields false and one that
  begins with \<open>truename\<close> yields true; an input whose first unit is neither \<open>0\<close>, \<open>1\<close> nor
  the first unit of a name fails with \<open>invalid_scanned_value\<close>, and the units read in the
  attempt, as many as the longer name has, are not put back.
\<close>

theorem scan_bool_names_always_tried:
  assumes "falsename loc \<noteq> []" and "truename loc \<noteq> []"
    and "hd (falsename loc) \<notin> {CHR ''0'', CHR ''1''}"
    and "hd (truename loc) \<notin> {CHR ''0'', CHR ''1'', hd (falsename loc)}"
  shows "scan_bool loc (CHR ''0'' # s) = Returned (Inr False) s \<and>
         scan_bool loc (CHR ''1'' # s) = Returned (Inr True) s \<and>
         (\<exists>s'. scan_bool loc (falsename loc @ s) = Returned (Inr False) s') \<and>
         (\<exists>s'. scan_bool loc (truename loc @ s) = Returned (Inr True) s') \<and>
         (c \<notin> {CHR ''0'', CHR ''1'', hd (falsename loc), hd (truename loc)} \<longrightarrow>
            scan_bool loc (c # s) = Returned (Inl invalid_scanned_value)
              (drop (max (length (truename loc)) (length (falsename loc))) (c # s)))"
proof -
  obtain f fs where f: "falsename loc = f # fs" using assms(1) by (cases "falsename loc") auto
  obtain t ts where t: "truename loc = t # ts" using assms(2) by (cases "truename loc") auto
  obtain n where n: "max (length (truename loc)) (length (falsename loc)) = Suc n"
    using f by (cases "max (length (truename loc)) (length (falsename loc))") auto
  have d: "scan_bool loc (CHR ''0'' # s) = Returned (Inr False) s"
    "scan_bool loc (CHR ''1'' # s) = Returned (Inr True) s"
    by (simp_all add: scan_bool_def)
  have ff: "scan_bool loc (falsename loc @ s) = Returned (Inr False) (fs @ s)"
    using scan_bool_name_step[OF f t, of f "fs @ s"] assms(3) f by simp
  have tt: "scan_bool loc (truename loc @ s) = Returned (Inr True) (ts @ s)"
    using scan_bool_name_step[OF f t, of t "ts @ s"] assms(4) f t by simp
  have miss: "scan_bool loc (c # s) = Returned (Inl invalid_scanned_value)
              (drop (max (length (truename loc)) (length (falsename loc))) (c # s))"
    if "c \<notin> {CHR ''0'', CHR ''1'', hd (falsename loc), hd (truename loc)}"
  proof -
    have c: "c \<noteq> CHR ''0''" "c \<noteq> CHR ''1''" "c \<noteq> f" "c \<noteq> t" using that f t by auto
    have "scan_bool loc (c # s) = bool_fill loc n [c] s"
      using scan_bool_name_step[OF f t c(1,2), of s] c(3,4) n by simp
    also have "\<dots> = Returned (Inl invalid_scanned_value) (drop n s)"
      using bool_fill_mismatch[of "[c]" loc n s] c f t by simp
    finally show ?thesis using n by simp
  qed
  show ?thesis using d ff tt miss by blast
qed

text \<open>
  C5 as stated fails: under the static locale the input \<open>true\<close> is accepted although its
  first unit is neither \<open>0\<close> nor \<open>1\<close>, and the failed scan of \<open>xyz\<close> leaves the stream
  empty, the units it read not put back.
\<close>

theorem scan_bool_counterexample:
  "scan_bool classic_locale ''true'' = Returned (Inr True) ''rue'' \<and>
   scan_bool classic_locale ''xyz'' = Returned (Inl invalid_scanned_value) []"
  by (simp add: scan_bool_def classic_locale_def putback_def)

theorem scan_bool_names_always_tried_witness:
  "scan_bool classic_locale ''0x'' = Returned (Inr False) ''x'' \<and>
   scan_bool classic_locale ''1x'' = Returned (Inr True) ''x'' \<and>
   (\<exists>s'. scan_bool classic_locale ''false!'' = Returned (Inr False) s') \<and>
   (\<exists>s'. scan_bool classic_locale ''true!'' = Returned (Inr True) s') \<and>
   scan_bool classic_locale ''xyz12345'' = Returned (Inl invalid_scanned_value) ''345''"
proof -
  have f: "falsename classic_locale \<noteq> []" and t: "truename classic_locale \<noteq> []"
    by (simp_all add: classic_locale_def)
  have hf: "hd (falsename classic_locale) \<notin> {CHR ''0'', CHR ''1''}"
    by (simp add: classic_locale_def)
  have ht: "hd (truename classic_locale) \<notin> {CHR ''0'', CHR ''1'', hd (falsename classic_locale)}"
    by (simp add: classic_locale_def)
  have n: "falsename classic_locale = ''false''" "truename classic_locale = ''true''"
    by (simp_all add: classic_locale_def)
  show ?thesis
    using scan_bool_names_always_tried[OF f t hf ht, of "''x''" "CHR ''x''"]
      scan_bool_names_always_tried[OF f t hf ht, of "''!''" "CHR ''x''"]
      scan_bool_names_always_tried[OF f t hf ht, of "''yz12345''" "CHR ''x''"]
    by (simp add: n)
qed

subsection \<open>The floating-point scanner\<close>

lemma float_fill_run:
  "float_run point ds \<Longrightarrow> length ds < n \<Longrightarrow> ends_float_run point ds c \<Longrightarrow>
   float_fill loc n point buf (ds @ c # rest) =
   Returned (Inr (buf @ ds @ replicate (n - length ds) NUL)) (c # rest)"
proof (induction n arbitrary: point ds buf)
  case 0
  then show ?case by simp
next
  case (Suc n)
  show ?case
  proof (cases ds)
    case Nil
    then show ?thesis using Suc.prems
      by (auto simp: ends_float_run_def is_digit_def putback_def)
  next
    case (Cons d ds')
    show ?thesis
    proof (cases "d = CHR ''.''")
      case True
      have "float_fill loc n True (buf @ [d]) (ds' @ c # rest) =
            Returned (Inr ((buf @ [d]) @ ds' @ replicate (n - length ds') NUL)) (c # rest)"
        using Suc.prems Cons True by (intro Suc.IH) (auto simp: ends_float_run_def)
      then show ?thesis using Suc.prems Cons True by simp
    next
      case False
      have "float_fill loc n point (buf @ [d]) (ds' @ c # rest) =
            Returned (Inr ((buf @ [d]) @ ds' @ replicate (n - length ds') NUL)) (c # rest)"
        using Suc.prems Cons False by (intro Suc.IH) (auto simp: ends_float_run_def)
      then show ?thesis using Suc.prems Cons False by (simp add: is_digit_def)
    qed
  qed
qed

lemma float_run_no_NUL: "float_run point ds \<Longrightarrow> NUL \<notin> set ds"
proof (induction ds arbitrary: point)
  case Nil
  then show ?case by simp
next
  case (Cons d ds)
  have "d \<noteq> NUL" using Cons.prems
    by (auto simp: NUL_def ascii_is_digit_def Let_def split: if_splits)
  moreover have "NUL \<notin> set ds" using Cons.prems Cons.IH by (auto split: if_splits)
  ultimately show ?case by simp
qed

lemma takeWhile_pad: "NUL \<notin> set ds \<Longrightarrow> takeWhile (\<lambda>c. c \<noteq> NUL) (ds @ replicate k NUL) = ds"
  by (induction ds) (auto simp: takeWhile_replicate)

lemma scan_float_on_run:
  assumes "float_run False ds" and "length ds < 64" and "ends_float_run False ds c"
  shows "scan_float str_to_floating loc (ds @ c # rest) =
         (if ds = [] then Returned (Inl invalid_scanned_value) (c # rest)
          else case str_to_floating loc (ds @ replicate (64 - length ds) NUL) of
                 (v, end_pos) \<Rightarrow>
                   if end_pos = length ds then Returned (Inr v) (c # rest)
                   else Returned (Inl invalid_scanned_value) (c # rest))"
proof -
  have fill: "float_fill loc 64 False [] (ds @ c # rest) =
        Returned (Inr (ds @ replicate (64 - length ds) NUL)) (c # rest)"
    using float_fill_run[OF assms, of loc "[]" rest] by simp
  have nn: "NUL \<notin> set ds" using assms(1) by (rule float_run_no_NUL)
  show ?thesis
  proof (cases ds)
    case Nil
    then show ?thesis using fill by (simp add: scan_float_def)
  next
    case (Cons d ds')
    then have "d \<noteq> NUL" using nn by auto
    then have hd: "hd (ds @ replicate (64 - length ds) NUL) \<noteq> NUL" using Cons by simp
    have tw: "length (takeWhile (\<lambda>c. c \<noteq> NUL) (ds @ replicate (64 - length ds) NUL)) = length ds"
      using takeWhile_pad[OF nn] by simp
    have ne: "ds \<noteq> []" using Cons by simp
    show ?thesis
      unfolding scan_float_def fill
      using hd tw ne by (auto split: prod.splits)
  qed
qed

text \<open>
  C4 (as amended). Float scanning, on an input that begins with a run of fewer than 64
  units, ASCII digits with at most one decimal point, and goes on with a unit that does
  not continue the run: the scanner consumes the run and puts that unit back, so a sign or
  an exponent letter is not consumed. When the run is empty it fails with
  \<open>invalid_scanned_value\<close> and the input is as it was; otherwise it converts the run and
  succeeds exactly when the conversion used all of it. An input that ends with the run,
  and a run of 64 units or more, are not covered.
\<close>

theorem scan_float_run:
  assumes "float_run False ds" and "length ds < 64" and "ends_float_run False ds c"
  shows "scan_float str_to_floating loc (ds @ c # rest) =
         (if ds = [] then Returned (Inl invalid_scanned_value) (c # rest)
          else case str_to_floating loc (ds @ replicate (64 - length ds) NUL) of
                 (v, end_pos) \<Rightarrow>
                   if end_pos = length ds then Returned (Inr v) (c # rest)
                   else Returned (Inl invalid_scanned_value) (c # rest))"
  using assms by (rule scan_float_on_run)

text \<open>
  C4 as stated fails, whatever the conversion function: a leading sign is not consumed
  (\<open>-1\<close> fails with \<open>invalid_scanned_value\<close> and nothing is read), an exponent is not
  consumed (after \<open>1e5\<close> the stream still holds \<open>e5\<close>), and on empty input the failed read
  enters the put-back loop at the first slot instead of returning \<open>invalid_scanned_value\<close>.
\<close>

theorem scan_float_counterexample:
  "(\<forall>stf :: locale_ref \<Rightarrow> char list \<Rightarrow> unit \<times> nat.
      scan_float stf classic_locale ''-1 '' = Returned (Inl invalid_scanned_value) ''-1 '') \<and>
   (\<forall>stf :: locale_ref \<Rightarrow> char list \<Rightarrow> unit \<times> nat.
      \<exists>r. scan_float stf classic_locale ''1e5 '' = Returned r ''e5 '') \<and>
   (\<forall>stf :: locale_ref \<Rightarrow> char list \<Rightarrow> unit \<times> nat.
      scan_float stf classic_locale '''' = Undefined)"
proof -
  have a: "scan_float stf classic_locale ''-1 '' = Returned (Inl invalid_scanned_value) ''-1 ''"
    for stf :: "locale_ref \<Rightarrow> char list \<Rightarrow> unit \<times> nat"
    using scan_float_on_run[of "[]" "CHR ''-''" stf classic_locale "''1 ''"]
    by (simp add: ends_float_run_def ascii_is_digit_def digit_value_def)
  have b: "\<exists>r. scan_float stf classic_locale ''1e5 '' = Returned r ''e5 ''"
    for stf :: "locale_ref \<Rightarrow> char list \<Rightarrow> unit \<times> nat"
    using scan_float_on_run[of "''1''" "CHR ''e''" stf classic_locale "''5 ''"]
    by (auto simp: ends_float_run_def ascii_is_digit_def digit_value_def split: prod.splits)
  have c: "scan_float stf classic_locale '''' = Undefined"
    for stf :: "locale_ref \<Rightarrow> char list \<Rightarrow> unit \<times> nat"
    by (simp add: scan_float_def putback_loop_def eval_nat_numeral)
  show ?thesis using a b c by blast
qed

theorem scan_float_run_witness:
  "float_run False ''1.5'' \<and> ends_float_run False ''1.5'' CHR ''e'' \<and>
   scan_float (\<lambda>l b. (takeWhile (\<lambda>c. c \<noteq> NUL) b, 3)) classic_locale ''1.5e3 ''
     = Returned (Inr ''1.5'') ''e3 ''"
proof -
  have r: "float_run False ''1.5''"
    by (simp add: ascii_is_digit_def digit_value_def)
  have l: "length ''1.5'' < 64" by simp
  have e: "ends_float_run False ''1.5'' CHR ''e''"
    by (simp add: ends_float_run_def ascii_is_digit_def digit_value_def)
  have "NUL \<notin> set ''1.5''" by (simp add: NUL_def)
  then have tw: "takeWhile (\<lambda>c. c \<noteq> NUL) (''1.5'' @ replicate 61 NUL) = ''1.5''"
    by (rule takeWhile_pad)
  show ?thesis
    using scan_float_run[OF r l e, of "(\<lambda>l b. (takeWhile (\<lambda>c. c \<noteq> NUL) b, 3))" classic_locale "''3 ''"]
      r e tw by simp
qed

subsection \<open>Scanning lists\<close>

lemmas eval_defs = visit_int_def empty_vector_def size_of_def push_back_def classic_locale_def
  is_dec_digit_def ascii_is_digit_def digit_value_def dec_value_def NUL_def read_single_def

lemma push_back_append:
  "(push_back c v)\<lparr>elems := elems (push_back c v) @ vs\<rparr> = c\<lparr>elems := elems c @ (v # vs)\<rparr>"
  by (simp add: push_back_def)

lemma push_back_size: "size_of (push_back c v) = Suc (size_of c)"
  "max_size (push_back c v) = max_size c"
  by (simp_all add: push_back_def size_of_def)

lemma list_result_push:
  "list_result (push_back c v) (vs, st, r') = list_result c (v # vs, st, r')"
  by (simp add: list_result_def push_back_append)

lemma scan_list_is_list_run:
  "max_size c - size_of c = room \<Longrightarrow> size_of c \<le> max_size c \<Longrightarrow>
   scan_list visit sep r c = list_result c (list_run visit sep room r)"
proof (induction room arbitrary: r c)
  case 0
  then have "size_of c = max_size c" by simp
  then show ?case by (subst scan_list.simps) (simp add: list_result_def)
next
  case (Suc room)
  then have lt: "size_of c \<noteq> max_size c" by simp
  obtain res r1 where vr: "visit r = (res, r1)" by (cases "visit r") auto
  show ?case
  proof (cases res)
    case (Inl err)
    then show ?thesis using lt vr
      by (subst scan_list.simps) (simp add: list_result_def)
  next
    case (Inr v)
    let ?c1 = "push_back c v"
    have c1: "max_size ?c1 - size_of ?c1 = room" "size_of ?c1 \<le> max_size ?c1"
      using Suc.prems by (simp_all add: push_back_size)
    have rec: "scan_list visit sep r' ?c1 = list_result ?c1 (list_run visit sep room r')" for r'
      by (rule Suc.IH[OF c1])
    obtain sres r2 where rs: "read_single r1 = (sres, r2)" by (cases "read_single r1") auto
    obtain vs1 st1 r1' where run1: "list_run visit sep room r1 = (vs1, st1, r1')"
      by (cases "list_run visit sep room r1") auto
    obtain vs2 st2 r2' where run2: "list_run visit sep room r2 = (vs2, st2, r2')"
      by (cases "list_run visit sep room r2") auto
    show ?thesis
    proof (cases "sep = NUL")
      case True
      have "scan_list visit sep r c = scan_list visit sep r1 ?c1"
        using lt vr Inr True by (subst scan_list.simps) simp
      also have "\<dots> = list_result c (v # vs1, st1, r1')"
        by (simp only: rec run1 list_result_push)
      finally show ?thesis using vr Inr True run1 by simp
    next
      case False
      show ?thesis
      proof (cases sres)
        case (Inl e)
        then show ?thesis using lt vr \<open>res = Inr v\<close> False rs
          by (subst scan_list.simps) (simp add: list_result_def push_back_def)
      next
        case (Inr ch)
        show ?thesis
        proof (cases "ch = sep")
          case True
          have "scan_list visit sep r c = scan_list visit sep r2 ?c1"
            using lt vr \<open>res = Inr v\<close> False rs Inr True by (subst scan_list.simps) simp
          also have "\<dots> = list_result c (v # vs2, st2, r2')"
            by (simp only: rec run2 list_result_push)
          finally show ?thesis using vr \<open>res = Inr v\<close> False rs Inr True run2 by simp
        next
          case neq: False
          then show ?thesis using lt vr \<open>res = Inr v\<close> False rs Inr
            by (subst scan_list.simps) (simp add: list_result_def push_back_def)
        qed
      qed
    qed
  qed
qed

text \<open>
  C6 (as amended). \<^verbatim>\<open>scan_list\<close> on a container within its bound returns, and what it
  returns is the run of the list scan: the values scanned, all of them and in the order of
  the input, are pushed behind the elements of the container, and the result is a success
  when the run ends because the container is at its maximal size, because the range is at
  its end, or because, a separator being given, the unit after a value is not the
  separator. A value scan that fails with another error ends the run with that error.
\<close>

theorem scan_list_computes_list_run:
  assumes "size_of c \<le> max_size c"
  shows "scan_list visit separator r c =
         (case list_run visit separator (max_size c - size_of c) r of
            (vs, st, r') \<Rightarrow> Some (stop_error st, r', c\<lparr>elems := elems c @ vs\<rparr>))"
  using scan_list_is_list_run[OF refl assms, of visit separator r]
  by (simp add: list_result_def)

text \<open>
  C6 as stated fails: with the default separator the unexpected unit \<open>x\<close> between the
  values of \<open>123 x 456\<close> is met by the value scan, and the call returns its error
  \<open>invalid_scanned_value\<close>, with 123 in the container.
\<close>

theorem scan_list_counterexample:
  "scan_list visit_int NUL ''123 x 456'' empty_vector
     = Some (Some invalid_scanned_value, '' x 456'',
             \<lparr>elems = [123], max_size = max_size empty_vector\<rparr>)"
  by (simp add: scan_list.simps eval_defs)

lemma list_run_1_2_3:
  "list_run visit_int CHR '','' 8 ''1,2,3'' = ([1, 2, 3], at_end_of_range, [])"
  by code_simp

lemma list_run_full:
  "list_run visit_int CHR '','' 2 ''1,2,3'' = ([1, 2], at_max_size, ''3'')"
  by code_simp

lemma list_run_unexpected:
  "list_run visit_int CHR '','' 8 ''1,2;3'' = ([1, 2], at_unexpected_unit, ''3'')"
  by code_simp

theorem scan_list_computes_list_run_witness:
  "scan_list visit_int CHR '','' ''1,2,3'' \<lparr>elems = [], max_size = 8\<rparr>
     = Some (None, [], \<lparr>elems = [1, 2, 3], max_size = 8\<rparr>) \<and>
   scan_list visit_int CHR '','' ''1,2,3'' \<lparr>elems = [], max_size = 2\<rparr>
     = Some (None, ''3'', \<lparr>elems = [1, 2], max_size = 2\<rparr>) \<and>
   scan_list visit_int CHR '','' ''1,2;3'' \<lparr>elems = [], max_size = 8\<rparr>
     = Some (None, ''3'', \<lparr>elems = [1, 2], max_size = 8\<rparr>)"
proof -
  have a: "size_of \<lparr>elems = ([] :: int list), max_size = 8\<rparr> \<le> max_size \<lparr>elems = ([] :: int list), max_size = 8\<rparr>"
    by (simp add: size_of_def)
  have b: "size_of \<lparr>elems = ([] :: int list), max_size = 2\<rparr> \<le> max_size \<lparr>elems = ([] :: int list), max_size = 2\<rparr>"
    by (simp add: size_of_def)
  show ?thesis
    using scan_list_computes_list_run[OF a, of visit_int "CHR '',''" "''1,2,3''"]
      scan_list_computes_list_run[OF b, of visit_int "CHR '',''" "''1,2,3''"]
      scan_list_computes_list_run[OF a, of visit_int "CHR '',''" "''1,2;3''"]
    by (simp add: size_of_def list_run_1_2_3 list_run_full list_run_unexpected)
qed

lemma after_value_stop:
  "after_value until sep sf r = (False, r') \<Longrightarrow> r' = [] \<or> hd r' = until"
  by (induction until sep sf r rule: after_value.induct) (auto split: if_splits)

text \<open>
  C7. \<^verbatim>\<open>scan_list_until\<close> on \<open>123 456\<newline>789\<close> with the line feed as \<open>until\<close>: the call
  succeeds and the container holds 123 and 456, but the leftover range begins at the line
  feed, not past it: the unit \<open>until\<close> is peeked and never passed.
\<close>

theorem scan_list_until_example:
  "scan_list_until visit_int CHR 0x0A NUL
     [CHR ''1'', CHR ''2'', CHR ''3'', CHR '' '', CHR ''4'', CHR ''5'', CHR ''6'', CHR 0x0A,
      CHR ''7'', CHR ''8'', CHR ''9''] empty_vector =
   Some (None, [CHR 0x0A, CHR ''7'', CHR ''8'', CHR ''9''],
         \<lparr>elems = [123, 456], max_size = max_size empty_vector\<rparr>)"
  by (simp add: scan_list_until.simps eval_defs)

subsection \<open>Reading a line\<close>

lemma unit_pred:
  "make_until_pred (until_unit d) = Some p \<Longrightarrow> \<not> is_multibyte p \<and> (\<forall>c. pred_holds p [c] = (c = d))"
  by (auto simp: is_multibyte_def pred_holds_def)

lemma split_at_unit:
  assumes "\<not> is_multibyte p" and "\<forall>c. pred_holds p [c] = (c = d)" and "d \<notin> set pre"
  shows "split_at_stop p (pre @ d # post) = Inr (pre, [d], post)"
  using assms by (induction pre) auto

lemma multibyte_never_one_unit: "is_multibyte p \<Longrightarrow> \<not> pred_holds p [c]"
  by (simp add: is_multibyte_def pred_holds_def)

lemma getline_impl_unit:
  assumes "d \<notin> set pre" and "units w = pre @ d # post"
  shows "getline_impl w str (until_unit d) = Some (None, w\<lparr>units := post\<rparr>, pre)"
proof -
  obtain p where p: "make_until_pred (until_unit d) = Some p" by simp
  have np: "\<not> is_multibyte p" and ph: "\<forall>c. pred_holds p [c] = (c = d)"
    using unit_pred[OF p] by simp_all
  have sp: "split_at_stop p (units w) = Inr (pre, [d], post)"
    unfolding assms(2) by (rule split_at_unit[OF np ph assms(1)])
  have ne: "units w \<noteq> []" using assms(2) by simp
  show ?thesis
  proof (cases "contiguous w")
    case True
    then show ?thesis using p sp ne ph
      by (simp add: getline_impl_def read_until_space_zero_copy_def Let_def del: make_until_pred.simps)
  next
    case False
    then show ?thesis using p sp ne ph
      by (simp add: getline_impl_def read_until_space_zero_copy_def read_until_space_def
          advance_def Let_def del: make_until_pred.simps)
  qed
qed

lemma getline_unit_delimiter:
  assumes "d \<notin> set pre"
  shows "\<exists>w. getline contig (pre @ d # post) str (until_unit d) = Some (None, w, pre) \<and> units w = post"
proof -
  let ?w = "wrap contig (pre @ d # post)"
  have u: "units ?w = pre @ d # post" by (simp add: wrap_def)
  have "getline_impl ?w str (until_unit d) = Some (None, ?w\<lparr>units := post\<rparr>, pre)"
    by (rule getline_impl_unit[OF assms u])
  then show ?thesis
    by (simp add: getline_def Let_def set_rollback_point_def)
qed

lemma char_of_euro:
  "char_of (226::nat) = CHR 0xE2" "char_of (130::nat) = CHR 0x82" "char_of (172::nat) = CHR 0xAC"
  by (rule of_char_eqI[where 'a = nat]; simp)+

lemma encode_euro: "encode_code_point 0x20AC = Some [CHR 0xE2, CHR 0x82, CHR 0xAC]"
  by (simp add: encode_code_point_def char_of_euro)

lemma pred_euro:
  "make_until_pred (until_code_point 0x20AC)
     = Some \<lparr>until_arr = [CHR 0xE2, CHR 0x82, CHR 0xAC, NUL], size_used = 3\<rparr>"
  by (simp add: encode_euro)

lemma split_euro:
  "split_at_stop \<lparr>until_arr = [CHR 0xE2, CHR 0x82, CHR 0xAC, NUL], size_used = 3\<rparr>
     [CHR ''a'', CHR 0xE2, CHR 0x82, CHR 0xAC, CHR ''b'']
   = Inr ([CHR ''a''], [CHR 0xE2, CHR 0x82, CHR 0xAC], [CHR ''b''])"
  by (simp add: is_multibyte_def pred_holds_def code_point_length_def)

text \<open>
  C8. \<^verbatim>\<open>getline\<close> and its delimiter: for a delimiter of one unit the string receives the
  units before its first occurrence and the leftover begins past it (lemma
  \<open>getline_unit_delimiter\<close>). For a delimiter that is a code point of several units the
  code stores the delimiter in the string: on the units of \<open>a\<close>, the euro sign and \<open>b\<close>
  with the euro sign as delimiter, the string is \<open>a\<close> followed by the three units of the
  delimiter, as the test of the last unit alone never holds of such a delimiter.
\<close>

theorem getline_code_point_delimiter:
  "getline True [CHR ''a'', CHR 0xE2, CHR 0x82, CHR 0xAC, CHR ''b''] [] (until_code_point 0x20AC)
     = Some (None, \<lparr>units = ''b'', rollback = ''b'', contiguous = True\<rparr>,
             [CHR ''a'', CHR 0xE2, CHR 0x82, CHR 0xAC])"
  by (simp add: getline_def getline_impl_def read_until_space_zero_copy_def wrap_def
      set_rollback_point_def pred_euro split_euro pred_holds_def Let_def
      del: make_until_pred.simps split_at_stop.simps)

subsection \<open>scan with an empty format\<close>

text \<open>
  C9 (as amended). Leftover chaining: if \<open>scan(r, fmt, args)\<close> succeeds with leftover
  \<open>r'\<close>, then \<open>scan\<close> of \<open>r'\<close> with the empty format and at least one argument returns
  ok with leftover \<open>r'\<close> and assigns nothing.
\<close>

theorem scan_empty_format:
  assumes "scan r fmt args = Some (None, r', vs)" and "args' \<noteq> []"
  shows "scan r' [] args' = Some (None, r', [])"
  using assms(2) by (simp add: scan_def scan_boilerplate_def)

text \<open>
  C9 as stated fails: after the successful \<open>scan("123 foo", "{}", i)\<close> the call on the
  leftover with the empty format and no argument has no result, as the
  \<^verbatim>\<open>static_assert\<close> of \<^verbatim>\<open>scan_boilerplate\<close> rejects it.
\<close>

theorem scan_empty_format_counterexample:
  "scan ''123 foo'' ''{}'' [int_arg] = Some (None, '' foo'', [123]) \<and>
   scan '' foo'' [] ([] :: int arg list) = None"
  by (simp add: scan_def scan_boilerplate_def int_arg_def visit_int_def classic_locale_def
      is_dec_digit_def ascii_is_digit_def digit_value_def dec_value_def)

theorem scan_empty_format_witness:
  "scan ''123 foo'' ''{}'' [int_arg] = Some (None, '' foo'', [123]) \<and>
   [int_arg] \<noteq> [] \<and>
   scan '' foo'' [] [int_arg] = Some (None, '' foo'', [])"
proof -
  have s: "scan ''123 foo'' ''{}'' [int_arg] = Some (None, '' foo'', [123])"
    by (simp add: scan_def scan_boilerplate_def int_arg_def visit_int_def classic_locale_def
      is_dec_digit_def ascii_is_digit_def digit_value_def dec_value_def)
  have a: "[int_arg] \<noteq> []" by simp
  show ?thesis using scan_empty_format[OF s a] s by simp
qed

end
